theory Spec2Isabelle
  imports Complex_Main "HOL-Library.Sublist" "HOL-Library.Char_ord" "HOL-Library.Log_Nat"
begin

section \<open>The tutor core of \<^verbatim>\<open>backend/src/agent.py\<close>\<close>

text \<open>
  The theory embeds the content loader, the per-session tutor state and the seven tools
  of \<^verbatim>\<open>agent.py\<close>. A Python \<^verbatim>\<open>str\<close> is modelled by the \<open>string\<close> of its UTF-8
  bytes. Equality, concatenation and the substring test \<^verbatim>\<open>in\<close> of two strings are those
  of their bytes, and \<open>len\<close> counts code points. \<open>lower\<close>, \<open>strip\<close> and \<open>split\<close>
  below are \<^verbatim>\<open>str.lower\<close>, \<^verbatim>\<open>str.strip\<close> and \<^verbatim>\<open>str.split\<close> for every text in which
  \<^verbatim>\<open>str.lower\<close> changes no character beyond ASCII and \<^verbatim>\<open>str.isspace\<close> holds for none;
  text with such characters is outside the model. The only text beyond ASCII that the
  source itself writes is the dash U+2014 of the feedback sentences, given here by its
  three bytes.
\<close>

subsection \<open>Strings\<close>

text \<open>The ASCII characters for which \<^verbatim>\<open>str.isspace\<close> holds: tab, line feed, vertical tab,
  form feed, carriage return, the four separators 0x1C to 0x1F and the space.\<close>

definition isspace :: "char \<Rightarrow> bool" where
  "isspace c = (c \<in> set [CHR 0x09, CHR 0x0A, CHR 0x0B, CHR 0x0C, CHR 0x0D,
                          CHR 0x1C, CHR 0x1D, CHR 0x1E, CHR 0x1F, CHR 0x20])"

definition lower_char :: "char \<Rightarrow> char" where
  "lower_char c =
     (if CHR ''A'' \<le> c \<and> c \<le> CHR ''Z'' then char_of (of_char c + (32::nat)) else c)"

definition lower :: "string \<Rightarrow> string" where
  "lower s = map lower_char s"

definition strip :: "string \<Rightarrow> string" where
  "strip s = rev (dropWhile isspace (rev (dropWhile isspace s)))"

text \<open>\<^verbatim>\<open>s.split()\<close>: the maximal runs of characters that are not white space, in order.
  The first argument is the run being read.\<close>

fun split_from :: "string \<Rightarrow> string \<Rightarrow> string list" where
  "split_from cur [] = (if cur = [] then [] else [cur])"
| "split_from cur (c # cs) =
     (if isspace c then (if cur = [] then split_from [] cs else cur # split_from [] cs)
      else split_from (cur @ [c]) cs)"

definition split :: "string \<Rightarrow> string list" where
  "split s = split_from [] s"

text \<open>\<^verbatim>\<open>len(s)\<close>, the number of code points: in UTF-8 every code point has one byte that
  is not a continuation byte (0x80 to 0xBF).\<close>

definition continuation :: "char \<Rightarrow> bool" where
  "continuation c = (CHR 0x80 \<le> c \<and> c \<le> CHR 0xBF)"

definition len :: "string \<Rightarrow> nat" where
  "len s = length (filter (\<lambda>c. \<not> continuation c) s)"

text \<open>\<^verbatim>\<open>sep.join(xs)\<close>.\<close>

fun join :: "string \<Rightarrow> string list \<Rightarrow> string" where
  "join sep [] = []"
| "join sep [x] = x"
| "join sep (x # y # ys) = x @ sep @ join sep (y # ys)"

text \<open>\<^verbatim>\<open>str(n)\<close> for an integer: the decimal digits, with a minus sign below zero.\<close>

definition digit :: "nat \<Rightarrow> char" where
  "digit d = char_of (48 + d)"

fun str_nat :: "nat \<Rightarrow> string" where
  "str_nat n = (if n < 10 then [digit n] else str_nat (n div 10) @ [digit (n mod 10)])"

declare str_nat.simps [simp del]

definition str_int :: "int \<Rightarrow> string" where
  "str_int i = (if i < 0 then CHR ''-'' # str_nat (nat (- i)) else str_nat (nat i))"

text \<open>The dash U+2014 of the feedback sentences and the apostrophe.\<close>

definition em_dash :: string where
  "em_dash = [CHR 0xE2, CHR 0x80, CHR 0x94]"

definition apostrophe :: string where
  "apostrophe = [CHR 0x27]"

subsection \<open>Loading the course content\<close>

text \<open>What \<^verbatim>\<open>json.loads\<close> returns. An object keeps its members in the order of the
  document.\<close>

datatype json =
    JNull
  | JBool bool
  | JNumber int
  | JString string
  | JArray "json list"
  | JObject "(string \<times> json) list"

datatype error =
    FileNotFoundError string
  | IsADirectoryError
  | PermissionError
  | UnicodeDecodeError
  | JSONDecodeError
  | KeyError string

text \<open>
  \<^verbatim>\<open>load_content\<close> resolves the path of the module, asks whether \<^verbatim>\<open>json_path\<close>
  exists, reads it as UTF-8 text and parses the text. What the file system answers is an
  input, one outcome for each call, the value returned or the exception raised:
  \<^item> \<open>json_path\<close>: the string of the path
    \<^verbatim>\<open>Path(__file__).resolve().parent.parent / "shared-data" / "day4_tutor_content.json"\<close>;
  \<^item> \<open>exists\<close>: the value of \<^verbatim>\<open>json_path.exists()\<close>;
  \<^item> \<open>read_text\<close>: the text that \<^verbatim>\<open>json_path.read_text(encoding="utf-8")\<close> returns (it
    raises when the path is a directory, when the file may not be read, when its bytes
    are not UTF-8, when it has gone since the test).

  The last input is the library function \<^verbatim>\<open>json.loads\<close>, which raises or returns the
  parsed value. The function has no other check.
\<close>

record path_state =
  json_path :: "error + string"
  exists :: "error + bool"
  read_text :: "error + string"


text \<open>
  The tools read \<^verbatim>\<open>COURSE_CONTENT\<close> as a list of dictionaries with string values: a
  topic is a map from field names to strings, and a field the document does not have is
  absent from the map.
\<close>

type_synonym topic = "string \<rightharpoonup> string"

subsection \<open>State and userdata\<close>

record TutorState =
  mode :: string
  current_topic_id :: "string option"
  history :: "(string \<rightharpoonup> string) list"

text \<open>\<^verbatim>\<open>TutorState()\<close>: the defaults of the dataclass, with \<^verbatim>\<open>__post_init__\<close> replacing the
  absent history by the empty list.\<close>

definition TutorState_init :: TutorState where
  "TutorState_init = \<lparr> mode = ''learn'', current_topic_id = None, history = [] \<rparr>"

text \<open>\<^verbatim>\<open>next((t for t in COURSE_CONTENT if t["id"] == x), None)\<close>: the first record whose
  stored identifier equals \<open>x\<close>; \<^verbatim>\<open>t["id"]\<close> raises at a record without the field.\<close>

fun next_by_id :: "topic list \<Rightarrow> string \<Rightarrow> error + topic option" where
  "next_by_id [] x = Inr None"
| "next_by_id (t # ts) x =
     (case t ''id'' of
        None \<Rightarrow> Inl (KeyError ''id'')
      | Some i \<Rightarrow> if i = x then Inr (Some t) else next_by_id ts x)"

text \<open>\<^verbatim>\<open>TutorState.topic\<close>. The test \<^verbatim>\<open>not self.current_topic_id\<close> holds for \<^verbatim>\<open>None\<close>
  and for the empty string.\<close>

definition topic :: "topic list \<Rightarrow> TutorState \<Rightarrow> error + topic option" where
  "topic COURSE_CONTENT st =
     (case current_topic_id st of
        None \<Rightarrow> Inr None
      | Some x \<Rightarrow> if x = [] then Inr None else next_by_id COURSE_CONTENT x)"

text \<open>The synthesis options of the session's TTS, the session (\<open>tts = None\<close> when it
  has no such attribute) and the userdata.\<close>

record TTS =
  voice :: string
  style :: string

record AgentSession =
  tts :: "TTS option"

record Userdata =
  tutor_state :: TutorState
  agent_session :: "AgentSession option"

text \<open>What a tool can reach: the userdata of its \<^verbatim>\<open>RunContext\<close> and the warnings written
  to the logger \<^verbatim>\<open>agent\<close>, oldest first.\<close>

record RunContext =
  userdata :: Userdata
  warnings :: "string list"

definition state_of :: "RunContext \<Rightarrow> TutorState" where
  "state_of ctx = tutor_state (userdata ctx)"

subsection \<open>Voice mapping\<close>

definition VOICE_MAP :: "string \<rightharpoonup> string \<times> string" where
  "VOICE_MAP = [''learn'' \<mapsto> (''en-US-matthew'', ''Promo''),
                ''quiz'' \<mapsto> (''en-US-alicia'', ''Conversation''),
                ''teach_back'' \<mapsto> (''en-US-ken'', ''Conversational'')]"

subsection \<open>Tools\<close>

text \<open>
  A tool takes the content table and the context and returns its outcome, the string
  spoken back or the exception raised, together with the context it leaves behind. The
  context is returned in both cases: an exception does not undo an assignment made
  before it. The arguments are of type \<^verbatim>\<open>str\<close>, for which \<^verbatim>\<open>(x or "")\<close> is \<^verbatim>\<open>x\<close>.
\<close>

type_synonym outcome = "error + string"

definition set_state :: "RunContext \<Rightarrow> TutorState \<Rightarrow> RunContext" where
  "set_state ctx st = ctx\<lparr>userdata := (userdata ctx)\<lparr>tutor_state := st\<rparr>\<rparr>"

text \<open>The list comprehension of \<^verbatim>\<open>list_topics\<close>: one label for each record, in order,
  reading \<^verbatim>\<open>t['id']\<close> and then \<^verbatim>\<open>t['title']\<close>.\<close>

fun topic_labels :: "topic list \<Rightarrow> error + string list" where
  "topic_labels [] = Inr []"
| "topic_labels (t # ts) =
     (case t ''id'' of
        None \<Rightarrow> Inl (KeyError ''id'')
      | Some i \<Rightarrow>
          (case t ''title'' of
             None \<Rightarrow> Inl (KeyError ''title'')
           | Some ti \<Rightarrow>
               (case topic_labels ts of
                  Inl e \<Rightarrow> Inl e
                | Inr ls \<Rightarrow> Inr ((i @ '' ('' @ ti @ '')'') # ls))))"

definition list_topics :: "topic list \<Rightarrow> RunContext \<Rightarrow> outcome \<times> RunContext" where
  "list_topics COURSE_CONTENT ctx =
     (case topic_labels COURSE_CONTENT of
        Inl e \<Rightarrow> (Inl e, ctx)
      | Inr ls \<Rightarrow> (Inr (''Available topics: '' @ join ''; '' ls), ctx))"

text \<open>\<^verbatim>\<open>select_topic\<close>. A record found has the field \<^verbatim>\<open>id\<close>, so it is a non-empty
  dictionary and \<^verbatim>\<open>not found\<close> holds for \<^verbatim>\<open>None\<close> only. The identifier is assigned
  before the title is read.\<close>

definition select_topic :: "topic list \<Rightarrow> RunContext \<Rightarrow> string \<Rightarrow> outcome \<times> RunContext" where
  "select_topic COURSE_CONTENT ctx topic_id =
     (let tid = lower (strip topic_id) in
      case next_by_id COURSE_CONTENT tid of
        Inl e \<Rightarrow> (Inl e, ctx)
      | Inr None \<Rightarrow>
          (case list_topics COURSE_CONTENT ctx of
             (Inl e, ctx') \<Rightarrow> (Inl e, ctx')
           | (Inr s, ctx') \<Rightarrow>
               (Inr (''Topic '' @ apostrophe @ topic_id @ apostrophe @ '' not found. '' @ s), ctx'))
      | Inr (Some found) \<Rightarrow>
          (let ctx' = set_state ctx ((state_of ctx)\<lparr>current_topic_id := Some tid\<rparr>) in
           case found ''title'' of
             None \<Rightarrow> (Inl (KeyError ''title''), ctx')
           | Some ti \<Rightarrow> (Inr (''Selected topic: '' @ ti @ ''.''), ctx')))"

text \<open>
  \<^verbatim>\<open>set_mode\<close>. The first argument stands for the call
  \<^verbatim>\<open>session.tts.update_options(voice=voice, style=style)\<close> of the voice substrate: it
  returns the options after the call, or \<open>Inl\<close> the message of the \<^verbatim>\<open>Exception\<close> it
  raised.
\<close>

definition set_mode ::
  "(TTS \<Rightarrow> string \<Rightarrow> string \<Rightarrow> string + TTS) \<Rightarrow> RunContext \<Rightarrow> string \<Rightarrow> outcome \<times> RunContext" where
  "set_mode update_options ctx mode_arg =
     (let m = lower (strip mode_arg) in
      case VOICE_MAP m of
        None \<Rightarrow> (Inr ''Invalid mode. Choose learn, quiz, or teach_back.'', ctx)
      | Some (v, s) \<Rightarrow>
          (let ctx1 = set_state ctx ((state_of ctx)\<lparr>mode := m\<rparr>);
               ctx2 =
                 (case agent_session (userdata ctx1) of
                    None \<Rightarrow> ctx1
                  | Some session \<Rightarrow>
                      (case tts session of
                         None \<Rightarrow> ctx1
                       | Some t \<Rightarrow>
                           (case update_options t v s of
                              Inl e \<Rightarrow> ctx1\<lparr>warnings := warnings ctx1 @ [''TTS update failed: '' @ e]\<rparr>
                            | Inr t' \<Rightarrow>
                                ctx1\<lparr>userdata :=
                                  (userdata ctx1)\<lparr>agent_session := Some (session\<lparr>tts := Some t'\<rparr>)\<rparr>\<rparr>)))
           in (Inr (''Mode set to '' @ m @ ''.''), ctx2)))"

text \<open>\<^verbatim>\<open>d.get(k, default)\<close>.\<close>

definition get :: "topic \<Rightarrow> string \<Rightarrow> string \<Rightarrow> string" where
  "get d k dflt = (case d k of None \<Rightarrow> dflt | Some v \<Rightarrow> v)"

text \<open>The three tools that read one field of the selected topic. A topic returned by
  \<open>topic\<close> has the field \<^verbatim>\<open>id\<close>, so \<^verbatim>\<open>not topic\<close> holds for \<^verbatim>\<open>None\<close> only.\<close>

definition explain_topic :: "topic list \<Rightarrow> RunContext \<Rightarrow> outcome \<times> RunContext" where
  "explain_topic COURSE_CONTENT ctx =
     (case topic COURSE_CONTENT (state_of ctx) of
        Inl e \<Rightarrow> (Inl e, ctx)
      | Inr None \<Rightarrow> (Inr ''No topic selected. Use select_topic first.'', ctx)
      | Inr (Some t) \<Rightarrow> (Inr (get t ''summary'' ''No summary available.''), ctx))"

definition ask_quiz :: "topic list \<Rightarrow> RunContext \<Rightarrow> outcome \<times> RunContext" where
  "ask_quiz COURSE_CONTENT ctx =
     (case topic COURSE_CONTENT (state_of ctx) of
        Inl e \<Rightarrow> (Inl e, ctx)
      | Inr None \<Rightarrow> (Inr ''No topic selected. Use select_topic first.'', ctx)
      | Inr (Some t) \<Rightarrow> (Inr (get t ''sample_question'' ''No sample question available.''), ctx))"

definition prompt_teachback :: "topic list \<Rightarrow> RunContext \<Rightarrow> outcome \<times> RunContext" where
  "prompt_teachback COURSE_CONTENT ctx =
     (case topic COURSE_CONTENT (state_of ctx) of
        Inl e \<Rightarrow> (Inl e, ctx)
      | Inr None \<Rightarrow> (Inr ''No topic selected. Use select_topic first.'', ctx)
      | Inr (Some t) \<Rightarrow>
          (Inr (get t ''teaching_prompt''
                  (get t ''sample_question'' ''Please explain this topic back to me.'')), ctx))"

subsection \<open>The teach-back score\<close>

text \<open>
  The steps of \<^verbatim>\<open>evaluate_teachback\<close>, one definition for each local variable. The
  first argument of \<open>keyword_list\<close> stands for the iteration of a Python \<^verbatim>\<open>set\<close>: it
  gives the order in which \<^verbatim>\<open>set(xs)\<close> yields its elements. The language leaves that
  order open (for strings it follows hashes that change from one process to the next);
  \<open>set_order\<close> says what every such order satisfies.
\<close>

definition set_order :: "(string list \<Rightarrow> string list) \<Rightarrow> bool" where
  "set_order set_iter = (\<forall>xs. distinct (set_iter xs) \<and> set (set_iter xs) = set xs)"

definition text_src :: "topic \<Rightarrow> string" where
  "text_src t = lower (get t ''title'' [] @ '' '' @ get t ''summary'' [])"

definition keyword_list :: "(string list \<Rightarrow> string list) \<Rightarrow> topic \<Rightarrow> string list" where
  "keyword_list set_iter t =
     take 12 (filter (\<lambda>w. len w > 3) (set_iter (split (text_src t))))"

definition match_count :: "string list \<Rightarrow> string \<Rightarrow> nat" where
  "match_count kws user_answer =
     length (filter (\<lambda>kw. sublist kw (lower user_answer)) kws)"

definition total_of :: "string list \<Rightarrow> nat" where
  "total_of kws = max 1 (length kws)"

text \<open>
  The score is computed in binary64 floating point. A float is given by a pair \<open>(m, e)\<close>
  of integers and stands for \<open>m * 2 ^ e\<close>. \<open>binary64 p q\<close> is the float nearest to the
  quotient \<open>p / q\<close> of a natural number and a positive one, with 53 significant bits and
  ties going to the even significand (lemma \<open>binary64_nearest\<close> below); the quotients
  and products of the score are far from the ends of the exponent range, which is left
  out.
\<close>

type_synonym float = "int \<times> int"

definition float_value :: "float \<Rightarrow> rat" where
  "float_value x = of_int (fst x) * 2 powi (snd x)"

text \<open>The integer \<open>d\<close> with \<open>2 ^ d \<le> p / q < 2 ^ (d + 1)\<close>.\<close>

definition ilog2 :: "int \<Rightarrow> int \<Rightarrow> int" where
  "ilog2 p q =
     (let d = bitlen p - bitlen q
      in if (if 0 \<le> d then q * 2 ^ nat d \<le> p else q \<le> p * 2 ^ nat (- d)) then d else d - 1)"

definition round_half_even :: "int \<Rightarrow> int \<Rightarrow> int" where
  "round_half_even p q =
     (let f = p div q; r = p mod q
      in if 2 * r < q then f else if q < 2 * r then f + 1 else if even f then f else f + 1)"

definition binary64 :: "int \<Rightarrow> int \<Rightarrow> float" where
  "binary64 p q =
     (if p = 0 then (0, 0)
      else let e = ilog2 p q - 52
           in if e \<le> 0 then (round_half_even (p * 2 ^ nat (- e)) q, e)
              else (round_half_even p (q * 2 ^ nat e), e))"

text \<open>\<^verbatim>\<open>float(n)\<close> for an integer below \<open>2 ^ 53\<close>, which is exact; the quotient and the
  product of two floats, rounded; and \<^verbatim>\<open>int(x)\<close> for a float that is not negative, which
  drops the fraction.\<close>

definition float_of_int :: "int \<Rightarrow> float" where
  "float_of_int n = (n, 0)"

definition float_div :: "float \<Rightarrow> float \<Rightarrow> float" where
  "float_div x y =
     (let d = snd x - snd y
      in if 0 \<le> d then binary64 (fst x * 2 ^ nat d) (fst y)
         else binary64 (fst x) (fst y * 2 ^ nat (- d)))"

definition float_mul :: "float \<Rightarrow> float \<Rightarrow> float" where
  "float_mul x y = (let z = binary64 (fst x * fst y) 1 in (fst z, snd z + snd x + snd y))"

definition int_of_float :: "float \<Rightarrow> int" where
  "int_of_float x =
     (if 0 \<le> snd x then fst x * 2 ^ nat (snd x) else fst x div 2 ^ nat (- snd x))"

text \<open>\<^verbatim>\<open>int((match / total) * 10)\<close> and \<^verbatim>\<open>max(1, min(10, score))\<close>. The divisor is
  \<^verbatim>\<open>max(1, len(keywords))\<close>, so the division never raises.\<close>

definition raw_score :: "nat \<Rightarrow> nat \<Rightarrow> int" where
  "raw_score m n =
     int_of_float
       (float_mul (float_div (float_of_int (int m)) (float_of_int (int n))) (float_of_int 10))"

definition score_of :: "nat \<Rightarrow> nat \<Rightarrow> int" where
  "score_of m n = max 1 (min 10 (raw_score m n))"

definition feedback_of :: "int \<Rightarrow> string" where
  "feedback_of sc =
     (if sc \<ge> 8 then ''Great '' @ em_dash @ '' clear and covers main points.''
      else if sc \<ge> 5 then
        ''Good '' @ em_dash @ '' covers some points; try adding a short example or definition.''
      else ''Needs improvement '' @ em_dash @ '' try a short definition and an example.'')"

definition evaluate_teachback ::
  "(string list \<Rightarrow> string list) \<Rightarrow> topic list \<Rightarrow> RunContext \<Rightarrow> string \<Rightarrow> outcome \<times> RunContext" where
  "evaluate_teachback set_iter COURSE_CONTENT ctx user_answer =
     (case topic COURSE_CONTENT (state_of ctx) of
        Inl e \<Rightarrow> (Inl e, ctx)
      | Inr None \<Rightarrow> (Inr ''No topic selected.'', ctx)
      | Inr (Some t) \<Rightarrow>
          (let kws = keyword_list set_iter t;
               sc = score_of (match_count kws user_answer) (total_of kws)
           in (Inr (feedback_of sc @ '' (score: '' @ str_int sc @ ''/10)''), ctx)))"

subsection \<open>The tool surface\<close>

text \<open>The seven tools registered by \<^verbatim>\<open>TeachTutorAgent\<close>, as the model driver calls
  them, and a session that runs a sequence of such calls. The session goes on after a
  tool has raised.\<close>

datatype tool_call =
    ListTopics
  | SelectTopic string
  | SetMode string
  | ExplainTopic
  | AskQuiz
  | PromptTeachback
  | EvaluateTeachback string

record process =
  COURSE_CONTENT :: "topic list"
  set_iter :: "string list \<Rightarrow> string list"
  update_options :: "TTS \<Rightarrow> string \<Rightarrow> string \<Rightarrow> string + TTS"

fun run_tool :: "process \<Rightarrow> RunContext \<Rightarrow> tool_call \<Rightarrow> outcome \<times> RunContext" where
  "run_tool p ctx ListTopics = list_topics (COURSE_CONTENT p) ctx"
| "run_tool p ctx (SelectTopic topic_id) = select_topic (COURSE_CONTENT p) ctx topic_id"
| "run_tool p ctx (SetMode m) = set_mode (update_options p) ctx m"
| "run_tool p ctx ExplainTopic = explain_topic (COURSE_CONTENT p) ctx"
| "run_tool p ctx AskQuiz = ask_quiz (COURSE_CONTENT p) ctx"
| "run_tool p ctx PromptTeachback = prompt_teachback (COURSE_CONTENT p) ctx"
| "run_tool p ctx (EvaluateTeachback user_answer) =
     evaluate_teachback (set_iter p) (COURSE_CONTENT p) ctx user_answer"

fun run_tools :: "process \<Rightarrow> RunContext \<Rightarrow> tool_call list \<Rightarrow> RunContext" where
  "run_tools p ctx [] = ctx"
| "run_tools p ctx (c # cs) = run_tools p (snd (run_tool p ctx c)) cs"

text \<open>The context at the start of \<^verbatim>\<open>entrypoint\<close>: a fresh \<^verbatim>\<open>TutorState\<close> and the session
  with the voice of the \<^verbatim>\<open>learn\<close> mode.\<close>

definition entry_ctx :: RunContext where
  "entry_ctx =
     \<lparr> userdata =
         \<lparr> tutor_state = TutorState_init,
           agent_session = Some \<lparr> tts = Some \<lparr> voice = ''en-US-matthew'', style = ''Promo'' \<rparr> \<rparr> \<rparr>,
       warnings = [] \<rparr>"

subsection \<open>Predicates of the claims\<close>

text \<open>Every record has the two fields that the tools read without a default.\<close>

definition labelled :: "topic list \<Rightarrow> bool" where
  "labelled cc = list_all (\<lambda>t. t ''id'' \<noteq> None \<and> t ''title'' \<noteq> None) cc"

text \<open>The invariant of the tutor state: a stored identifier is found by the scan of the
  content table.\<close>

definition topic_resolves :: "topic list \<Rightarrow> TutorState \<Rightarrow> bool" where
  "topic_resolves cc st =
     (case current_topic_id st of
        None \<Rightarrow> True
      | Some x \<Rightarrow> (case next_by_id cc x of Inr (Some t) \<Rightarrow> True | _ \<Rightarrow> False))"

text \<open>The score as the specification words it: the ratio times ten, rounded to the
  nearest integer, then clamped.\<close>

definition spec_score :: "nat \<Rightarrow> nat \<Rightarrow> int" where
  "spec_score matches keyword_count =
     max 1 (min 10 (round ((of_nat matches / of_nat (max 1 keyword_count) :: rat) * 10)))"




subsection \<open>Content tables and contexts of the examples\<close>

definition selected :: "topic list \<Rightarrow> string \<Rightarrow> RunContext" where
  "selected cc x = snd (select_topic cc entry_ctx x)"

definition cc_loops :: "topic list" where
  "cc_loops =
     [[''id'' \<mapsto> ''loops'', ''title'' \<mapsto> ''Loops'', ''summary'' \<mapsto> ''repeat blocks'']]"

definition cc_caps :: "topic list" where
  "cc_caps =
     [[''id'' \<mapsto> ''Loops'', ''title'' \<mapsto> ''Loops'', ''summary'' \<mapsto> ''repeat blocks'']]"

definition cc_blank :: "topic list" where
  "cc_blank = [[''id'' \<mapsto> [], ''title'' \<mapsto> ''Blank'', ''summary'' \<mapsto> ''nothing here'']]"

definition cc_short :: "topic list" where
  "cc_short = [[''id'' \<mapsto> ''ai'', ''title'' \<mapsto> ''AI'', ''summary'' \<mapsto> ''ML is fun'']]"


definition cc_kanji :: "topic list" where
  "cc_kanji =
     [[''id'' \<mapsto> ''kanji'',
       ''title'' \<mapsto> [CHR 0xE6, CHR 0x97, CHR 0xA5, CHR 0xE6, CHR 0x9C, CHR 0xAC,
                      CHR 0xE8, CHR 0xAA, CHR 0x9E],
       ''summary'' \<mapsto> ''ab'']]"

definition cc_radio :: "topic list" where
  "cc_radio =
     [[''id'' \<mapsto> ''radio'', ''title'' \<mapsto> ''Alpha'',
       ''summary'' \<mapsto>
         ''bravo charlie delta foxtrot golf hotel india juliet kilo lima mike november'']]"

definition answer_radio :: string where
  "answer_radio = ''alpha bravo charlie delta foxtrot golf hotel india juliet kilo lima mike''"








definition proc_loops :: process where
  "proc_loops =
     \<lparr> COURSE_CONTENT = cc_loops, set_iter = remdups,
       update_options = (\<lambda>t v s. Inr \<lparr> voice = v, style = s \<rparr>) \<rparr>"

section \<open>Properties\<close>

subsection \<open>Frame lemmas of the tools\<close>

lemma state_of_set_state: "state_of (set_state ctx st) = st"
  by (simp add: state_of_def set_state_def)

lemma normalize_learn: "lower (strip ''learn'') = ''learn''"
  by code_simp

lemma normalize_quiz: "lower (strip ''quiz'') = ''quiz''"
  by code_simp

lemma normalize_teach_back: "lower (strip ''teach_back'') = ''teach_back''"
  by code_simp

lemma VOICE_MAP_dom: "VOICE_MAP m \<noteq> None \<longleftrightarrow> m \<in> {''learn'', ''quiz'', ''teach_back''}"
  by (auto simp: VOICE_MAP_def)

lemma set_mode_state:
  "VOICE_MAP (lower (strip m)) = Some vs \<Longrightarrow>
   state_of (snd (set_mode upd ctx m)) = (state_of ctx)\<lparr>mode := lower (strip m)\<rparr>"
  by (cases vs)
     (auto simp: set_mode_def Let_def state_of_def set_state_def
           split: option.splits sum.splits)

lemma set_mode_result:
  "VOICE_MAP (lower (strip m)) = Some vs \<Longrightarrow>
   fst (set_mode upd ctx m) = Inr (''Mode set to '' @ lower (strip m) @ ''.'')"
  by (cases vs) (simp add: set_mode_def Let_def)

lemma set_mode_warning:
  "VOICE_MAP (lower (strip m)) = Some (v, s) \<Longrightarrow> agent_session (userdata ctx) = Some session \<Longrightarrow>
   tts session = Some t \<Longrightarrow> upd t v s = Inl e \<Longrightarrow>
   warnings (snd (set_mode upd ctx m)) = warnings ctx @ [''TTS update failed: '' @ e]"
  by (simp add: set_mode_def Let_def set_state_def)

lemma set_mode_invalid:
  "VOICE_MAP (lower (strip m)) = None \<Longrightarrow>
   set_mode upd ctx m = (Inr ''Invalid mode. Choose learn, quiz, or teach_back.'', ctx)"
  by (simp add: set_mode_def Let_def)

lemma state_of_list_topics: "state_of (snd (list_topics cc ctx)) = state_of ctx"
  by (simp add: list_topics_def split: sum.splits)

lemma snd_list_topics: "snd (list_topics cc ctx) = ctx"
  by (simp add: list_topics_def split: sum.splits)

lemma snd_explain_topic: "snd (explain_topic cc ctx) = ctx"
  by (simp add: explain_topic_def split: sum.splits option.splits)

lemma snd_ask_quiz: "snd (ask_quiz cc ctx) = ctx"
  by (simp add: ask_quiz_def split: sum.splits option.splits)

lemma snd_prompt_teachback: "snd (prompt_teachback cc ctx) = ctx"
  by (simp add: prompt_teachback_def split: sum.splits option.splits)

lemma snd_evaluate_teachback: "snd (evaluate_teachback it cc ctx a) = ctx"
  by (simp add: evaluate_teachback_def Let_def split: sum.splits option.splits)

lemma select_topic_state:
  "state_of (snd (select_topic cc ctx s)) =
     (case next_by_id cc (lower (strip s)) of
        Inr (Some t) \<Rightarrow> (state_of ctx)\<lparr>current_topic_id := Some (lower (strip s))\<rparr>
      | _ \<Rightarrow> state_of ctx)"
  by (simp add: select_topic_def Let_def state_of_set_state snd_list_topics list_topics_def
           split: sum.splits option.splits prod.splits)

lemma set_mode_state_cases:
  "state_of (snd (set_mode upd ctx m)) =
     (case VOICE_MAP (lower (strip m)) of
        None \<Rightarrow> state_of ctx
      | Some vs \<Rightarrow> (state_of ctx)\<lparr>mode := lower (strip m)\<rparr>)"
  by (auto simp: set_mode_state set_mode_invalid split: option.splits)

lemma history_run_tool: "history (state_of (snd (run_tool p ctx c))) = history (state_of ctx)"
  by (cases c)
     (simp_all add: snd_list_topics snd_explain_topic snd_ask_quiz snd_prompt_teachback
        snd_evaluate_teachback select_topic_state set_mode_state_cases
        split: sum.splits option.splits)

lemma history_run_tools:
  "history (state_of (run_tools p ctx cs)) = history (state_of ctx)"
  by (induction cs arbitrary: ctx) (simp_all add: history_run_tool)

lemma history_entry_ctx: "history (state_of entry_ctx) = []"
  by (simp add: entry_ctx_def state_of_def TutorState_init_def)

subsection \<open>The history and the mode\<close>

text \<open>
  C10. No tool changes the \<open>history\<close> field of the tutor state: one call leaves it as
  it was, and after any sequence of calls from the context of \<^verbatim>\<open>entrypoint\<close>, whatever
  the content, the voice substrate and the arguments are, it is still the empty list
  that \<^verbatim>\<open>__post_init__\<close> stored.
\<close>

theorem history_never_modified:
  "history (state_of (snd (run_tool p ctx c))) = history (state_of ctx) \<and>
   history (state_of (run_tools p entry_ctx cs)) = []"
  by (simp add: history_run_tool history_run_tools history_entry_ctx)

text \<open>
  C6. For each of the three mode names, \<^verbatim>\<open>set_mode\<close> returns the confirmation and
  leaves a state that differs from the old one in the mode only, which is the name
  given. The voice substrate \<open>upd\<close> is arbitrary, so this holds whether the update of the
  voice succeeds or raises; when it raises, the only trace is one more warning in the
  log.
\<close>

theorem set_mode_valid:
  assumes "m \<in> {''learn'', ''quiz'', ''teach_back''}"
  shows "fst (set_mode upd ctx m) = Inr (''Mode set to '' @ m @ ''.'') \<and>
         state_of (snd (set_mode upd ctx m)) = (state_of ctx)\<lparr>mode := m\<rparr> \<and>
         (\<forall>session t v s e. agent_session (userdata ctx) = Some session \<and> tts session = Some t \<and>
            VOICE_MAP m = Some (v, s) \<and> upd t v s = Inl e \<longrightarrow>
            warnings (snd (set_mode upd ctx m)) = warnings ctx @ [''TTS update failed: '' @ e])"
proof -
  from assms have n: "lower (strip m) = m"
    using normalize_learn normalize_quiz normalize_teach_back by auto
  from assms obtain vs where vs: "VOICE_MAP m = Some vs"
    using VOICE_MAP_dom [of m] by auto
  show ?thesis
    using set_mode_result [of m vs upd ctx] set_mode_state [of m vs upd ctx]
      set_mode_warning [of m _ _ ctx _ _ upd] vs n by auto
qed

theorem set_mode_valid_witness:
  "''quiz'' \<in> {''learn'', ''quiz'', ''teach_back''} \<and>
   fst (set_mode (\<lambda>t v s. Inl ''murf is down'') entry_ctx ''quiz'') = Inr ''Mode set to quiz.'' \<and>
   mode (state_of (snd (set_mode (\<lambda>t v s. Inl ''murf is down'') entry_ctx ''quiz''))) = ''quiz'' \<and>
   warnings (snd (set_mode (\<lambda>t v s. Inl ''murf is down'') entry_ctx ''quiz'')) =
     [''TTS update failed: murf is down'']"
proof -
  have h: "''quiz'' \<in> {''learn'', ''quiz'', ''teach_back''}"
    by simp
  show ?thesis
    using set_mode_valid [OF h, of "\<lambda>t v s. Inl ''murf is down''" entry_ctx]
    by (simp add: entry_ctx_def VOICE_MAP_def)
qed

text \<open>
  C7. The claim is about every string outside the three mode names. \<^verbatim>\<open>set_mode\<close> tests
  the trimmed, lower-cased argument, so \<^verbatim>\<open>QUIZ\<close>, which is none of the three names, is
  accepted and changes the mode.
\<close>

theorem set_mode_unlisted_counterexample:
  "''QUIZ'' \<notin> {''learn'', ''quiz'', ''teach_back''} \<and>
   mode (state_of entry_ctx) = ''learn'' \<and>
   fst (set_mode (\<lambda>t v s. Inr t) entry_ctx ''QUIZ'') = Inr ''Mode set to quiz.'' \<and>
   mode (state_of (snd (set_mode (\<lambda>t v s. Inr t) entry_ctx ''QUIZ''))) = ''quiz''"
  by code_simp

lemma rejection_lists_modes:
  "sublist ''learn'' ''Invalid mode. Choose learn, quiz, or teach_back.'' \<and>
   sublist ''quiz'' ''Invalid mode. Choose learn, quiz, or teach_back.'' \<and>
   sublist ''teach_back'' ''Invalid mode. Choose learn, quiz, or teach_back.''"
  by code_simp

text \<open>
  C7, as amended. For every string whose trimmed, lower-cased form is none of the three
  mode names, \<^verbatim>\<open>set_mode\<close> returns the rejection, which names the three modes, raises
  nothing and leaves the whole context as it was.
\<close>

theorem set_mode_invalid_rejected:
  assumes "lower (strip m) \<notin> {''learn'', ''quiz'', ''teach_back''}"
  shows "set_mode upd ctx m = (Inr ''Invalid mode. Choose learn, quiz, or teach_back.'', ctx) \<and>
         sublist ''learn'' ''Invalid mode. Choose learn, quiz, or teach_back.'' \<and>
         sublist ''quiz'' ''Invalid mode. Choose learn, quiz, or teach_back.'' \<and>
         sublist ''teach_back'' ''Invalid mode. Choose learn, quiz, or teach_back.''"
proof -
  from assms have "VOICE_MAP (lower (strip m)) = None"
    using VOICE_MAP_dom [of "lower (strip m)"] by blast
  then show ?thesis
    using set_mode_invalid rejection_lists_modes by simp
qed

lemma normalize_explore: "lower (strip ''Explore '') = ''explore''"
  by code_simp

theorem set_mode_invalid_rejected_witness:
  "lower (strip ''Explore '') \<notin> {''learn'', ''quiz'', ''teach_back''} \<and>
   set_mode (\<lambda>t v s. Inr t) entry_ctx ''Explore '' =
     (Inr ''Invalid mode. Choose learn, quiz, or teach_back.'', entry_ctx)"
proof -
  have h: "lower (strip ''Explore '') \<notin> {''learn'', ''quiz'', ''teach_back''}"
    by (simp add: normalize_explore)
  show ?thesis
    using set_mode_invalid_rejected [OF h, of "\<lambda>t v s. Inr t" entry_ctx] h by simp
qed

subsection \<open>A topic that is not found\<close>





lemma labelled_ids: "labelled cc \<Longrightarrow> list_all (\<lambda>t. t ''id'' \<noteq> None) cc"
  by (simp add: labelled_def list_all_iff)




lemma labelled_cc_loops: "labelled cc_loops"
  by (simp add: labelled_def cc_loops_def)



subsection \<open>Selecting a topic\<close>

lemma next_by_id_find:
  "list_all (\<lambda>t. t ''id'' \<noteq> None) cc \<Longrightarrow>
   next_by_id cc x = Inr (find (\<lambda>t. t ''id'' = Some x) cc)"
  by (induction cc) auto

lemma find_distinct_key:
  "distinct (map f cc) \<Longrightarrow> t \<in> set cc \<Longrightarrow> find (\<lambda>u. f u = f t) cc = Some t"
  by (induction cc) auto

lemma next_by_id_Some:
  "next_by_id cc x = Inr (Some t) \<Longrightarrow> t \<in> set cc \<and> t ''id'' = Some x"
  by (induction cc) (auto split: option.splits if_splits)

text \<open>
  C2. The claim is about the identifier of any record. \<^verbatim>\<open>select_topic\<close> compares the
  trimmed, lower-cased argument with the identifiers as they are stored, so a record
  stored under \<^verbatim>\<open>Loops\<close> is not found by its own identifier.
\<close>

theorem select_topic_stored_id_counterexample:
  "hd cc_caps ''id'' = Some ''Loops'' \<and>
   fst (select_topic cc_caps entry_ctx ''Loops'') =
     Inr (''Topic '' @ apostrophe @ ''Loops'' @ apostrophe @
          '' not found. Available topics: Loops (Loops)'') \<and>
   current_topic_id (state_of (snd (select_topic cc_caps entry_ctx ''Loops''))) = None"
  by code_simp

text \<open>
  C2, as amended. Let every record have an identifier and a title, and the identifiers
  be distinct. For every record whose stored identifier is the trimmed, lower-cased
  argument, \<^verbatim>\<open>select_topic\<close> stores that normalized argument in \<open>current_topic_id\<close>,
  changes nothing else and returns a sentence that contains the title of the record. The
  lookup is a linear scan: it returns the first record whose stored identifier equals
  the normalized argument.
\<close>

theorem select_topic_found:
  assumes "labelled cc" and "distinct (map (\<lambda>t. t ''id'') cc)"
    and "t \<in> set cc" and "t ''id'' = Some (lower (strip s))" and "t ''title'' = Some ti"
  shows "select_topic cc ctx s =
           (Inr (''Selected topic: '' @ ti @ ''.''),
            set_state ctx ((state_of ctx)\<lparr>current_topic_id := Some (lower (strip s))\<rparr>)) \<and>
         current_topic_id (state_of (snd (select_topic cc ctx s))) = Some (lower (strip s)) \<and>
         sublist ti (''Selected topic: '' @ ti @ ''.'') \<and>
         next_by_id cc (lower (strip s)) =
           Inr (find (\<lambda>u. u ''id'' = Some (lower (strip s))) cc)"
proof -
  let ?x = "lower (strip s)"
  have scan: "next_by_id cc ?x = Inr (find (\<lambda>u. u ''id'' = Some ?x) cc)"
    by (rule next_by_id_find [OF labelled_ids [OF assms(1)]])
  have "find (\<lambda>u. u ''id'' = t ''id'') cc = Some t"
    using assms(2,3) by (rule find_distinct_key)
  with assms(4) scan have nx: "next_by_id cc ?x = Inr (Some t)"
    by simp
  have st: "select_topic cc ctx s =
      (Inr (''Selected topic: '' @ ti @ ''.''),
       set_state ctx ((state_of ctx)\<lparr>current_topic_id := Some ?x\<rparr>))"
    by (simp add: select_topic_def Let_def nx assms(5))
  have "sublist ti (''Selected topic: '' @ ti @ ''.'')"
    by (rule sublist_appendI)
  with st scan show ?thesis
    by (simp add: state_of_set_state)
qed

lemma normalize_LOOPS: "lower (strip ''LOOPS '') = ''loops''"
  by code_simp

theorem select_topic_found_witness:
  "labelled cc_loops \<and> distinct (map (\<lambda>t. t ''id'') cc_loops) \<and>
   fst (select_topic cc_loops entry_ctx ''LOOPS '') = Inr ''Selected topic: Loops.'' \<and>
   current_topic_id (state_of (snd (select_topic cc_loops entry_ctx ''LOOPS ''))) = Some ''loops''"
proof -
  have d: "distinct (map (\<lambda>t. t ''id'') cc_loops)"
    by (simp add: cc_loops_def)
  have m: "hd cc_loops \<in> set cc_loops"
    by (simp add: cc_loops_def)
  have i: "hd cc_loops ''id'' = Some (lower (strip ''LOOPS ''))"
    by (simp add: cc_loops_def normalize_LOOPS)
  have t: "hd cc_loops ''title'' = Some ''Loops''"
    by (simp add: cc_loops_def)
  show ?thesis
    using select_topic_found [OF labelled_cc_loops d m i t, of entry_ctx]
      labelled_cc_loops d
    by (simp add: normalize_LOOPS state_of_set_state)
qed

subsection \<open>The invariant of the selected topic\<close>

lemma topic_resolves_mode: "topic_resolves cc (st\<lparr>mode := m\<rparr>) = topic_resolves cc st"
  by (simp add: topic_resolves_def)

lemma topic_resolves_run_tool:
  "topic_resolves (COURSE_CONTENT p) (state_of ctx) \<Longrightarrow>
   topic_resolves (COURSE_CONTENT p) (state_of (snd (run_tool p ctx c)))"
proof (cases c)
  case (SelectTopic s)
  assume "topic_resolves (COURSE_CONTENT p) (state_of ctx)"
  with SelectTopic show ?thesis
    by (auto simp: select_topic_state topic_resolves_def split: sum.splits option.splits)
next
  case (SetMode m)
  assume "topic_resolves (COURSE_CONTENT p) (state_of ctx)"
  with SetMode show ?thesis
    by (simp add: set_mode_state_cases topic_resolves_mode split: option.splits)
qed (simp_all add: snd_list_topics snd_explain_topic snd_ask_quiz snd_prompt_teachback
       snd_evaluate_teachback)

lemma topic_resolves_run_tools:
  "topic_resolves (COURSE_CONTENT p) (state_of ctx) \<Longrightarrow>
   topic_resolves (COURSE_CONTENT p) (state_of (run_tools p ctx cs))"
  by (induction cs arbitrary: ctx) (simp_all add: topic_resolves_run_tool)

lemma topic_resolves_entry_ctx: "topic_resolves cc (state_of entry_ctx)"
  by (simp add: topic_resolves_def entry_ctx_def state_of_def TutorState_init_def)

lemma topic_of_resolved:
  assumes "topic_resolves cc st" and "current_topic_id st = Some x" and "x \<noteq> []"
  shows "\<exists>t. t \<in> set cc \<and> t ''id'' = Some x \<and> next_by_id cc x = Inr (Some t) \<and>
             topic cc st = Inr (Some t)"
proof -
  from assms(1,2) obtain t where t: "next_by_id cc x = Inr (Some t)"
    by (auto simp: topic_resolves_def split: sum.splits option.splits)
  with assms(2,3) have "topic cc st = Inr (Some t)"
    by (simp add: topic_def)
  with t next_by_id_Some [OF t] show ?thesis by blast
qed

lemma topic_of_unset:
  "current_topic_id st = None \<or> current_topic_id st = Some [] \<Longrightarrow> topic cc st = Inr None"
  by (auto simp: topic_def)

text \<open>
  C9. The claim lets the accessor return the record whenever an identifier is stored.
  \<^verbatim>\<open>TutorState.topic\<close> tests \<^verbatim>\<open>not self.current_topic_id\<close>, which holds for the empty
  string too: after the record stored under the empty identifier has been selected, the
  stored identifier resolves by lookup, and the accessor returns \<^verbatim>\<open>None\<close>.
\<close>

theorem current_topic_blank_counterexample:
  "fst (select_topic cc_blank entry_ctx []) = Inr ''Selected topic: Blank.'' \<and>
   current_topic_id (state_of (selected cc_blank [])) = Some [] \<and>
   topic_resolves cc_blank (state_of (selected cc_blank [])) \<and>
   topic cc_blank (state_of (selected cc_blank [])) = Inr None \<and>
   fst (explain_topic cc_blank (selected cc_blank [])) =
     Inr ''No topic selected. Use select_topic first.''"
proof -
  have sel: "fst (select_topic cc_blank entry_ctx []) = Inr ''Selected topic: Blank.''"
    by code_simp
  have cur: "current_topic_id (state_of (selected cc_blank [])) = Some []"
    by code_simp
  have res: "topic_resolves cc_blank (state_of (selected cc_blank []))"
    by code_simp
  from cur have top: "topic cc_blank (state_of (selected cc_blank [])) = Inr None"
    by (simp add: topic_of_unset)
  then have "fst (explain_topic cc_blank (selected cc_blank [])) =
      Inr ''No topic selected. Use select_topic first.''"
    by (simp add: explain_topic_def)
  with sel cur res top show ?thesis by simp
qed

text \<open>
  C9, as amended. Every tool preserves the invariant that a stored identifier resolves
  by lookup to a record of the content table, and the invariant holds after any sequence
  of calls from the context of \<^verbatim>\<open>entrypoint\<close>. Under the invariant, when the stored
  identifier is a non-empty string the accessor returns the record that the lookup finds,
  a record of the table with that identifier. When no identifier is stored, or the empty
  string is, the accessor returns \<^verbatim>\<open>None\<close> and raises nothing.
\<close>

theorem current_topic_invariant:
  "(topic_resolves (COURSE_CONTENT p) (state_of ctx) \<longrightarrow>
      topic_resolves (COURSE_CONTENT p) (state_of (snd (run_tool p ctx c)))) \<and>
   topic_resolves (COURSE_CONTENT p) (state_of (run_tools p entry_ctx cs)) \<and>
   (topic_resolves cc st \<and> current_topic_id st = Some x \<and> x \<noteq> [] \<longrightarrow>
      (\<exists>t. t \<in> set cc \<and> t ''id'' = Some x \<and> next_by_id cc x = Inr (Some t) \<and>
           topic cc st = Inr (Some t))) \<and>
   (current_topic_id st = None \<or> current_topic_id st = Some [] \<longrightarrow> topic cc st = Inr None)"
  using topic_resolves_run_tool [of p ctx c]
    topic_resolves_run_tools [OF topic_resolves_entry_ctx, of p cs]
    topic_of_resolved [of cc st x] topic_of_unset [of st cc]
  by blast

lemma run_loops_topic_id:
  "current_topic_id (state_of (run_tools proc_loops entry_ctx
      [SelectTopic ''LOOPS '', SetMode ''quiz'', SelectTopic ''recursion''])) = Some ''loops''"
  by code_simp

theorem current_topic_invariant_witness:
  "topic_resolves cc_loops (state_of (run_tools proc_loops entry_ctx
      [SelectTopic ''LOOPS '', SetMode ''quiz'', SelectTopic ''recursion''])) \<and>
   (\<exists>t. t \<in> set cc_loops \<and> t ''id'' = Some ''loops'' \<and>
        topic cc_loops (state_of (run_tools proc_loops entry_ctx
          [SelectTopic ''LOOPS '', SetMode ''quiz'', SelectTopic ''recursion''])) = Inr (Some t))"
proof -
  let ?cs = "[SelectTopic ''LOOPS '', SetMode ''quiz'', SelectTopic ''recursion'']"
  let ?st = "state_of (run_tools proc_loops entry_ctx ?cs)"
  have c: "COURSE_CONTENT proc_loops = cc_loops"
    by (simp add: proc_loops_def)
  have n: "''loops'' \<noteq> []"
    by simp
  from current_topic_invariant [of proc_loops entry_ctx ListTopics ?cs cc_loops ?st "''loops''"]
  have r: "topic_resolves cc_loops ?st"
    and "topic_resolves cc_loops ?st \<and> current_topic_id ?st = Some ''loops'' \<and> ''loops'' \<noteq> [] \<longrightarrow>
      (\<exists>t. t \<in> set cc_loops \<and> t ''id'' = Some ''loops'' \<and>
           next_by_id cc_loops ''loops'' = Inr (Some t) \<and> topic cc_loops ?st = Inr (Some t))"
    unfolding c by blast+
  with run_loops_topic_id n show ?thesis by blast
qed

subsection \<open>Rounding to binary64\<close>

lemma round_half_even_near:
  assumes "0 < q"
  shows "\<bar>(of_int p / of_int q :: rat) - of_int (round_half_even p q)\<bar> \<le> 1 / 2"
proof -
  let ?f = "p div q" and ?r = "p mod q"
  have r: "0 \<le> ?r" "?r < q"
    using assms by simp_all
  have "(of_int p :: rat) = of_int ?f * of_int q + of_int ?r"
    by (metis div_mult_mod_eq of_int_add of_int_mult)
  then have pq: "(of_int p / of_int q :: rat) = of_int ?f + of_int ?r / of_int q"
    using assms by (simp add: field_simps)
  have lo: "0 \<le> (of_int ?r / of_int q :: rat)"
    using r assms by simp
  have hi: "(of_int ?r / of_int q :: rat) < 1"
    using r assms by simp
  have half: "2 * ?r < q \<longleftrightarrow> (of_int ?r / of_int q :: rat) < 1 / 2"
    using assms by (simp add: field_simps) (metis of_int_less_iff of_int_mult of_int_numeral mult.commute)
  have half': "q < 2 * ?r \<longleftrightarrow> 1 / 2 < (of_int ?r / of_int q :: rat)"
    using assms by (simp add: field_simps) (metis of_int_less_iff of_int_mult of_int_numeral mult.commute)
  show ?thesis
    unfolding round_half_even_def Let_def pq
    using lo hi half half' by (auto simp: abs_if)
qed


lemma bitlen_rat_bounds:
  assumes "0 < p"
  shows "2 powi (bitlen p - 1) \<le> (of_int p :: rat) \<and> (of_int p :: rat) < 2 powi (bitlen p)"
proof -
  from assms have b: "1 \<le> bitlen p"
    by (simp add: bitlen_alt_def)
  from bitlen_bounds [OF assms] have "(2 :: int) ^ nat (bitlen p - 1) \<le> p" "p < 2 ^ nat (bitlen p)"
    by simp_all
  then have "(of_int ((2 :: int) ^ nat (bitlen p - 1)) :: rat) \<le> of_int p"
    "(of_int p :: rat) < of_int (2 ^ nat (bitlen p))"
    by (simp_all only: of_int_le_iff of_int_less_iff)
  with b show ?thesis
    by (simp add: power_int_def)
qed

lemma ilog2_test:
  assumes "0 < p" and "0 < q"
  shows "(if 0 \<le> d then q * 2 ^ nat d \<le> p else q \<le> p * 2 ^ nat (- d)) \<longleftrightarrow>
         2 powi d \<le> (of_int p / of_int q :: rat)"
proof (cases "0 \<le> d")
  case True
  have "q * 2 ^ nat d \<le> p \<longleftrightarrow> (of_int (q * 2 ^ nat d) :: rat) \<le> of_int p"
    by (simp only: of_int_le_iff)
  also have "\<dots> \<longleftrightarrow> 2 ^ nat d \<le> (of_int p / of_int q :: rat)"
    using assms(2) by (simp add: pos_le_divide_eq mult.commute)
  finally show ?thesis
    using True by (simp add: power_int_def)
next
  case False
  have "q \<le> p * 2 ^ nat (- d) \<longleftrightarrow> (of_int q :: rat) \<le> of_int (p * 2 ^ nat (- d))"
    by (simp only: of_int_le_iff)
  also have "\<dots> \<longleftrightarrow> inverse 2 ^ nat (- d) \<le> (of_int p / of_int q :: rat)"
    using assms(2) by (simp add: field_simps)
  finally show ?thesis
    using False by (simp add: power_int_def)
qed

lemma ilog2_bounds:
  assumes "0 < p" and "0 < q"
  shows "2 powi (ilog2 p q) \<le> (of_int p / of_int q :: rat) \<and>
         (of_int p / of_int q :: rat) < 2 powi (ilog2 p q + 1)"
proof -
  let ?P = "of_int p :: rat" and ?Q = "of_int q :: rat"
  let ?d = "bitlen p - bitlen q"
  from assms have pos: "0 < ?P" "0 < ?Q"
    by simp_all
  note bp = bitlen_rat_bounds [OF assms(1)] and bq = bitlen_rat_bounds [OF assms(2)]
  have two: "(2 :: rat) powi (a - b) = 2 powi a / 2 powi b" for a b :: int
    by (simp add: power_int_diff)
  have up: "?P / ?Q < 2 powi (?d + 1)"
  proof -
    have "?P / ?Q < 2 powi (bitlen p) / ?Q"
      using bp pos by (simp add: divide_strict_right_mono)
    also have "\<dots> \<le> 2 powi (bitlen p) / 2 powi (bitlen q - 1)"
      using bq pos by (intro divide_left_mono) (simp_all add: zero_less_power_int)
    also have "\<dots> = 2 powi (?d + 1)"
      using two [of "bitlen p" "bitlen q - 1"] by (simp add: algebra_simps)
    finally show ?thesis .
  qed
  have low: "(2 :: rat) powi (?d - 1) \<le> ?P / ?Q"
  proof -
    have "(2 :: rat) powi (?d - 1) = 2 powi (bitlen p - 1) / 2 powi (bitlen q)"
      using two [of "bitlen p - 1" "bitlen q"] by (simp add: algebra_simps)
    also have "\<dots> \<le> ?P / 2 powi (bitlen q)"
      using bp by (simp add: divide_right_mono)
    also have "\<dots> \<le> ?P / ?Q"
      using bq pos by (intro divide_left_mono) (simp_all add: zero_less_power_int)
    finally show ?thesis .
  qed
  show ?thesis
  proof (cases "2 powi ?d \<le> ?P / ?Q")
    case True
    then have "ilog2 p q = ?d"
      by (simp add: ilog2_def Let_def ilog2_test [OF assms])
    with True up show ?thesis by simp
  next
    case False
    then have "ilog2 p q = ?d - 1"
      by (simp add: ilog2_def Let_def ilog2_test [OF assms])
    with False low show ?thesis by simp
  qed
qed


lemma near_int_bounds:
  fixes x :: rat
  assumes "\<bar>x - of_int n\<bar> \<le> 1 / 2" and "of_int lo \<le> x" and "x < of_int hi"
  shows "lo \<le> n \<and> n \<le> hi"
proof -
  from assms have "(of_int lo :: rat) - 1 < of_int n" "(of_int n :: rat) < of_int hi + 1"
    by linarith+
  then have "(of_int (lo - 1) :: rat) < of_int n" "(of_int n :: rat) < of_int (hi + 1)"
    by simp_all
  then have "lo - 1 < n" "n < hi + 1"
    by (simp_all only: of_int_less_iff)
  then show ?thesis
    by simp
qed

lemma binary64_scaled:
  assumes "0 < p" and "0 < q"
  shows "\<exists>a b. 0 < b \<and> binary64 p q = (round_half_even a b, ilog2 p q - 52) \<and>
           (of_int a / of_int b :: rat) = of_int p / of_int q * 2 powi (52 - ilog2 p q)"
proof (cases "ilog2 p q - 52 \<le> 0")
  case True
  let ?k = "nat (- (ilog2 p q - 52))"
  have "binary64 p q = (round_half_even (p * 2 ^ ?k) q, ilog2 p q - 52)"
    using assms(1) True by (simp add: binary64_def Let_def)
  moreover have "(of_int (p * 2 ^ ?k) / of_int q :: rat) =
      of_int p / of_int q * 2 powi (52 - ilog2 p q)"
    using True by (simp add: power_int_def)
  ultimately show ?thesis
    using assms(2) by blast
next
  case False
  let ?k = "nat (ilog2 p q - 52)"
  have "binary64 p q = (round_half_even p (q * 2 ^ ?k), ilog2 p q - 52)"
    using assms(1) False by (simp add: binary64_def Let_def)
  moreover have "(of_int p / of_int (q * 2 ^ ?k) :: rat) =
      of_int p / of_int q * 2 powi (52 - ilog2 p q)"
  proof -
    from False have "52 - ilog2 p q < 0" "nat (- (52 - ilog2 p q)) = ?k"
      by simp_all
    then have "(2 :: rat) powi (52 - ilog2 p q) = inverse 2 ^ ?k"
      by (simp add: power_int_def)
    also have "\<dots> = 1 / 2 ^ ?k"
      by (simp add: inverse_eq_divide power_divide)
    finally have e: "(2 :: rat) powi (52 - ilog2 p q) = 1 / 2 ^ ?k" .
    have "(of_int p / of_int (q * 2 ^ ?k) :: rat) = of_int p / (of_int q * 2 ^ ?k)"
      by simp
    also have "\<dots> = of_int p / of_int q * (1 / 2 ^ ?k)"
      by simp
    finally show ?thesis
      by (simp only: e)
  qed
  moreover have "0 < q * 2 ^ ?k"
    using assms(2) by simp
  ultimately show ?thesis
    by blast
qed

text \<open>\<open>binary64\<close> rounds to the nearest number with a significand of 53 bits.\<close>

lemma binary64_nearest:
  assumes "0 < p" and "0 < q"
  shows "2 ^ 52 \<le> fst (binary64 p q) \<and> fst (binary64 p q) \<le> 2 ^ 53 \<and>
         \<bar>(of_int p / of_int q :: rat) - float_value (binary64 p q)\<bar>
           \<le> 2 powi (snd (binary64 p q) - 1)"
proof -
  let ?d = "ilog2 p q"
  let ?x = "(of_int p / of_int q :: rat) * 2 powi (52 - ?d)"
  from binary64_scaled [OF assms] obtain a b where
    b: "0 < b" and v: "binary64 p q = (round_half_even a b, ?d - 52)" and
    x: "(of_int a / of_int b :: rat) = ?x"
    by blast
  let ?n = "round_half_even a b"
  have near: "\<bar>?x - of_int ?n\<bar> \<le> 1 / 2"
    using round_half_even_near [OF b, of a] by (simp only: x)
  have s: "(2 :: rat) powi ?d * 2 powi (52 - ?d) = 2 ^ 52"
    "(2 :: rat) powi (?d + 1) * 2 powi (52 - ?d) = 2 ^ 53"
    by (simp_all add: power_int_add [symmetric])
  have pos: "0 < (2 :: rat) powi (52 - ?d)"
    by (simp add: zero_less_power_int)
  from ilog2_bounds [OF assms] have lo: "2 powi ?d \<le> (of_int p / of_int q :: rat)"
    and hi: "(of_int p / of_int q :: rat) < 2 powi (?d + 1)"
    by simp_all
  have "2 powi ?d * 2 powi (52 - ?d) \<le> ?x"
    using lo less_imp_le [OF pos] by (rule mult_right_mono)
  moreover have "?x < 2 powi (?d + 1) * 2 powi (52 - ?d)"
    using hi pos by (rule mult_strict_right_mono)
  ultimately have range: "2 ^ 52 \<le> ?x" "?x < 2 ^ 53"
    by (simp_all only: s)
  have "(of_int (2 ^ 52) :: rat) \<le> ?x" "?x < of_int (2 ^ 53)"
    using range by simp_all
  with near have n: "2 ^ 52 \<le> ?n \<and> ?n \<le> 2 ^ 53"
    by (rule near_int_bounds)
  have scaled: "(of_int p / of_int q :: rat) = ?x * 2 powi (?d - 52)"
    by (simp add: power_int_add [symmetric])
  have "\<bar>(of_int p / of_int q :: rat) - of_int ?n * 2 powi (?d - 52)\<bar> =
      \<bar>(?x - of_int ?n) * 2 powi (?d - 52)\<bar>"
    by (subst scaled) (simp only: left_diff_distrib)
  also have "\<dots> = \<bar>?x - of_int ?n\<bar> * 2 powi (?d - 52)"
    by (simp add: abs_mult zero_le_power_int)
  also have "\<dots> \<le> 1 / 2 * 2 powi (?d - 52)"
    using near by (rule mult_right_mono) (simp add: zero_le_power_int)
  also have "\<dots> = 2 powi (?d - 52 - 1)"
    by (simp add: power_int_diff)
  finally have "\<bar>(of_int p / of_int q :: rat) - of_int ?n * 2 powi (?d - 52)\<bar>
      \<le> 2 powi (?d - 52 - 1)" .
  with n show ?thesis
    by (simp add: v float_value_def)
qed

subsection \<open>The floating-point score is the integer quotient\<close>

lemma bitlen_numeral: "bitlen (numeral k) = bitlen (numeral k div 2) + 1"
  by (subst compute_bitlen) simp

lemma bitlen_one: "bitlen 1 = 1"
  by (subst compute_bitlen) simp

lemmas float_eval = raw_score_def int_of_float_def float_mul_def float_div_def float_of_int_def
  binary64_def ilog2_def round_half_even_def Let_def bitlen_numeral bitlen_one

text \<open>The float of \<^verbatim>\<open>1 / 10\<close> is the well-known \<open>3602879701896397 / 2 ^ 55\<close>.\<close>

lemma float_tenth:
  "float_div (float_of_int 1) (float_of_int 10) = (7205759403792794, - 56) \<and>
   float_value (7205759403792794, - 56) = 3602879701896397 / 2 ^ 55"
  by (simp add: float_eval float_value_def power_int_minus)

lemma raw_score_1: "m \<le> 1 \<Longrightarrow> raw_score m 1 = int (10 * m div 1)"
proof -
  assume "m \<le> 1"
  then have "m \<in> {0, 1}"
    by (simp; arith)
  then show ?thesis
    by (elim insertE emptyE) (simp_all add: float_eval)
qed

lemma raw_score_2: "m \<le> 2 \<Longrightarrow> raw_score m 2 = int (10 * m div 2)"
proof -
  assume "m \<le> 2"
  then have "m \<in> {0, 1, 2}"
    by (simp; arith)
  then show ?thesis
    by (elim insertE emptyE) (simp_all add: float_eval)
qed

lemma raw_score_3: "m \<le> 3 \<Longrightarrow> raw_score m 3 = int (10 * m div 3)"
proof -
  assume "m \<le> 3"
  then have "m \<in> {0, 1, 2, 3}"
    by (simp; arith)
  then show ?thesis
    by (elim insertE emptyE) (simp_all add: float_eval)
qed

lemma raw_score_4: "m \<le> 4 \<Longrightarrow> raw_score m 4 = int (10 * m div 4)"
proof -
  assume "m \<le> 4"
  then have "m \<in> {0, 1, 2, 3, 4}"
    by (simp; arith)
  then show ?thesis
    by (elim insertE emptyE) (simp_all add: float_eval)
qed

lemma raw_score_5: "m \<le> 5 \<Longrightarrow> raw_score m 5 = int (10 * m div 5)"
proof -
  assume "m \<le> 5"
  then have "m \<in> {0, 1, 2, 3, 4, 5}"
    by (simp; arith)
  then show ?thesis
    by (elim insertE emptyE) (simp_all add: float_eval)
qed

lemma raw_score_6: "m \<le> 6 \<Longrightarrow> raw_score m 6 = int (10 * m div 6)"
proof -
  assume "m \<le> 6"
  then have "m \<in> {0, 1, 2, 3, 4, 5, 6}"
    by (simp; arith)
  then show ?thesis
    by (elim insertE emptyE) (simp_all add: float_eval)
qed

lemma raw_score_7: "m \<le> 7 \<Longrightarrow> raw_score m 7 = int (10 * m div 7)"
proof -
  assume "m \<le> 7"
  then have "m \<in> {0, 1, 2, 3, 4, 5, 6, 7}"
    by (simp; arith)
  then show ?thesis
    by (elim insertE emptyE) (simp_all add: float_eval)
qed

lemma raw_score_8: "m \<le> 8 \<Longrightarrow> raw_score m 8 = int (10 * m div 8)"
proof -
  assume "m \<le> 8"
  then have "m \<in> {0, 1, 2, 3, 4, 5, 6, 7, 8}"
    by (simp; arith)
  then show ?thesis
    by (elim insertE emptyE) (simp_all add: float_eval)
qed

lemma raw_score_9: "m \<le> 9 \<Longrightarrow> raw_score m 9 = int (10 * m div 9)"
proof -
  assume "m \<le> 9"
  then have "m \<in> {0, 1, 2, 3, 4, 5, 6, 7, 8, 9}"
    by (simp; arith)
  then show ?thesis
    by (elim insertE emptyE) (simp_all add: float_eval)
qed

lemma raw_score_10: "m \<le> 10 \<Longrightarrow> raw_score m 10 = int (10 * m div 10)"
proof -
  assume "m \<le> 10"
  then have "m \<in> {0, 1, 2, 3, 4, 5, 6, 7, 8, 9, 10}"
    by (simp; arith)
  then show ?thesis
    by (elim insertE emptyE) (simp_all add: float_eval)
qed

lemma raw_score_11: "m \<le> 11 \<Longrightarrow> raw_score m 11 = int (10 * m div 11)"
proof -
  assume "m \<le> 11"
  then have "m \<in> {0, 1, 2, 3, 4, 5, 6, 7, 8, 9, 10, 11}"
    by (simp; arith)
  then show ?thesis
    by (elim insertE emptyE) (simp_all add: float_eval)
qed

lemma raw_score_12: "m \<le> 12 \<Longrightarrow> raw_score m 12 = int (10 * m div 12)"
proof -
  assume "m \<le> 12"
  then have "m \<in> {0, 1, 2, 3, 4, 5, 6, 7, 8, 9, 10, 11, 12}"
    by (simp; arith)
  then show ?thesis
    by (elim insertE emptyE) (simp_all add: float_eval)
qed

lemma raw_score_exact:
  assumes "m \<le> n" and "1 \<le> n" and "n \<le> 12"
  shows "raw_score m n = int (10 * m div n)"
proof -
  from assms(2,3) have "n \<in> {1, 2, 3, 4, 5, 6, 7, 8, 9, 10, 11, 12}"
    by (simp; arith)
  with assms(1) show ?thesis
    using raw_score_1 raw_score_2 raw_score_3 raw_score_4 raw_score_5 raw_score_6
      raw_score_7 raw_score_8 raw_score_9 raw_score_10 raw_score_11 raw_score_12
    by blast
qed

lemma floor_ratio: "\<lfloor>(of_nat m / of_nat n :: rat) * 10\<rfloor> = int (10 * m div n)"
proof -
  have "(of_nat m / of_nat n :: rat) * 10 = of_nat (10 * m) / of_nat n"
    by simp
  then show ?thesis
    by (simp only: floor_divide_of_nat_eq)
qed

lemma score_of_range: "1 \<le> score_of m n \<and> score_of m n \<le> 10"
  by (simp add: score_of_def)

lemma match_count_le: "match_count kws a \<le> length kws"
  by (simp add: match_count_def)

lemma length_keyword_list: "length (keyword_list it t) \<le> 12"
  by (simp add: keyword_list_def)

lemma score_of_keywords:
  "score_of (match_count (keyword_list it t) a) (total_of (keyword_list it t)) =
     max 1 (min 10 \<lfloor>(of_nat (match_count (keyword_list it t) a) /
                       of_nat (max 1 (length (keyword_list it t))) :: rat) * 10\<rfloor>)"
proof -
  let ?k = "keyword_list it t"
  have "match_count ?k a \<le> total_of ?k" "1 \<le> total_of ?k" "total_of ?k \<le> 12"
    using match_count_le [of ?k a] length_keyword_list [of it t]
    by (simp_all add: total_of_def)
  then have "raw_score (match_count ?k a) (total_of ?k) =
      int (10 * match_count ?k a div total_of ?k)"
    by (rule raw_score_exact)
  then show ?thesis
    by (simp only: score_of_def floor_ratio total_of_def)
qed

lemma evaluate_teachback_selected:
  "topic cc (state_of ctx) = Inr (Some t) \<Longrightarrow>
   evaluate_teachback it cc ctx a =
     (Inr (feedback_of (score_of (match_count (keyword_list it t) a) (total_of (keyword_list it t))) @
           '' (score: '' @
           str_int (score_of (match_count (keyword_list it t) a) (total_of (keyword_list it t))) @
           ''/10)''), ctx)"
  by (simp add: evaluate_teachback_def Let_def)

lemma keyword_list_tokens:
  assumes "set_order it"
  shows "distinct (keyword_list it t) \<and>
         set (keyword_list it t) \<subseteq> {w \<in> set (split (text_src t)). 3 < len w}"
proof -
  from assms have d: "distinct (it (split (text_src t)))"
    and s: "set (it (split (text_src t))) = set (split (text_src t))"
    by (simp_all add: set_order_def)
  from d have "distinct (keyword_list it t)"
    by (simp add: keyword_list_def)
  moreover have "set (keyword_list it t) \<subseteq> set (filter (\<lambda>w. 3 < len w) (it (split (text_src t))))"
    unfolding keyword_list_def by (rule set_take_subset)
  ultimately show ?thesis
    using s by auto
qed

text \<open>
  C1. The claim rounds the ratio to the nearest integer. The source converts with
  \<^verbatim>\<open>int\<close>, which drops the fraction: with two of three keywords matched the ratio times
  ten is 6.67, the score is 6, and the rounded value would be 7.
\<close>

theorem score_rounding_counterexample:
  "keyword_list remdups (hd cc_loops) = [''loops'', ''repeat'', ''blocks''] \<and>
   match_count [''loops'', ''repeat'', ''blocks''] ''loops repeat'' = 2 \<and>
   fst (evaluate_teachback remdups cc_loops (selected cc_loops ''loops'') ''loops repeat'') =
     Inr (''Good '' @ em_dash @
          '' covers some points; try adding a short example or definition. (score: 6/10)'') \<and>
   spec_score 2 3 = 7"
  by code_simp

text \<open>
  C1, as amended. For every selected topic and every answer, \<^verbatim>\<open>evaluate_teachback\<close>
  computes the score as the integer part of \<open>(matches / max 1 keyword_count) * 10\<close>,
  clamped to 1 .. 10, and returns the feedback for that score followed by the score. The
  keywords are the first 12, in the iteration order of the set, of the tokens longer
  than 3 of the lower-cased title, a space and the summary; they are distinct whenever
  the iteration is that of a set. The matches are the keywords that occur in the
  lower-cased answer. With no match the score is 1.
\<close>

theorem evaluate_teachback_score:
  assumes "topic cc (state_of ctx) = Inr (Some t)"
  shows "let kws = take 12 (filter (\<lambda>w. 3 < len w)
                     (it (split (lower (get t ''title'' [] @ '' '' @ get t ''summary'' [])))));
             matches = length (filter (\<lambda>kw. sublist kw (lower a)) kws);
             sc = max 1 (min 10 \<lfloor>(of_nat matches / of_nat (max 1 (length kws)) :: rat) * 10\<rfloor>)
         in evaluate_teachback it cc ctx a =
              (Inr (feedback_of sc @ '' (score: '' @ str_int sc @ ''/10)''), ctx) \<and>
            (matches = 0 \<longrightarrow> sc = 1) \<and>
            (set_order it \<longrightarrow> distinct kws \<and>
               set kws \<subseteq> {w \<in> set (split (lower (get t ''title'' [] @ '' '' @ get t ''summary'' []))).
                            3 < len w})"
proof -
  have k: "take 12 (filter (\<lambda>w. 3 < len w)
             (it (split (lower (get t ''title'' [] @ '' '' @ get t ''summary'' []))))) =
           keyword_list it t"
    by (simp add: keyword_list_def text_src_def)
  have m: "length (filter (\<lambda>kw. sublist kw (lower a)) (keyword_list it t)) =
           match_count (keyword_list it t) a"
    by (simp add: match_count_def)
  have ev: "evaluate_teachback it cc ctx a =
      (Inr (feedback_of (score_of (match_count (keyword_list it t) a) (total_of (keyword_list it t))) @
            '' (score: '' @
            str_int (score_of (match_count (keyword_list it t) a) (total_of (keyword_list it t))) @
            ''/10)''), ctx)"
    using assms by (rule evaluate_teachback_selected)
  have z: "match_count (keyword_list it t) a = 0 \<longrightarrow>
      score_of (match_count (keyword_list it t) a) (total_of (keyword_list it t)) = 1"
  proof
    assume h: "match_count (keyword_list it t) a = 0"
    show "score_of (match_count (keyword_list it t) a) (total_of (keyword_list it t)) = 1"
      using score_of_keywords [of it t a] by (simp add: h)
  qed
  have d: "set_order it \<longrightarrow> distinct (keyword_list it t) \<and>
      set (keyword_list it t) \<subseteq> {w \<in> set (split (text_src t)). 3 < len w}"
    using keyword_list_tokens by blast
  show ?thesis
    unfolding Let_def k m score_of_keywords [symmetric]
    using ev z d by (simp add: text_src_def)
qed

lemma set_order_remdups: "set_order remdups"
  by (simp add: set_order_def)

lemma topic_selected_loops:
  "topic cc_loops (state_of (selected cc_loops ''loops'')) = Inr (Some (hd cc_loops))"
proof -
  have "lower (strip ''loops'') = ''loops''"
    by code_simp
  then have "current_topic_id (state_of (selected cc_loops ''loops'')) = Some ''loops''"
    by (simp add: selected_def select_topic_state cc_loops_def)
  then show ?thesis
    by (simp add: topic_def cc_loops_def)
qed

theorem evaluate_teachback_score_witness:
  "topic cc_loops (state_of (selected cc_loops ''loops'')) = Inr (Some (hd cc_loops)) \<and>
   evaluate_teachback remdups cc_loops (selected cc_loops ''loops'') ''Loops repeat code'' =
     (Inr (feedback_of 6 @ '' (score: '' @ str_int 6 @ ''/10)''), selected cc_loops ''loops'')"
proof -
  have k: "take 12 (filter (\<lambda>w. 3 < len w) (remdups (split (lower
      (get (hd cc_loops) ''title'' [] @ '' '' @ get (hd cc_loops) ''summary'' []))))) =
      [''loops'', ''repeat'', ''blocks'']"
    by code_simp
  have m: "length (filter (\<lambda>kw. sublist kw (lower ''Loops repeat code''))
      [''loops'', ''repeat'', ''blocks'']) = 2"
    by code_simp
  have s: "max 1 (min 10 \<lfloor>(of_nat 2 / of_nat (max 1 (length [''loops'', ''repeat'', ''blocks''])) :: rat) * 10\<rfloor>) = 6"
    by code_simp
  show ?thesis
    using evaluate_teachback_score [OF topic_selected_loops, of remdups "''Loops repeat code''"]
      topic_selected_loops
    unfolding Let_def k m s by simp
qed

subsection \<open>The order of the set\<close>

lemma length_distinct: "distinct xs \<Longrightarrow> length xs = card (set xs)"
  by (rule distinct_card [symmetric])

lemma keyword_list_all:
  assumes "set_order it"
    and "length (remdups (filter (\<lambda>w. 3 < len w) (split (text_src t)))) \<le> 12"
  shows "distinct (keyword_list it t) \<and>
         set (keyword_list it t) = {w \<in> set (split (text_src t)). 3 < len w}"
proof -
  let ?f = "filter (\<lambda>w. 3 < len w) (it (split (text_src t)))"
  from assms(1) have d: "distinct ?f"
    and s: "set ?f = {w \<in> set (split (text_src t)). 3 < len w}"
    by (auto simp: set_order_def)
  have "length ?f = card (set ?f)"
    using d by (rule length_distinct)
  also have "\<dots> = card (set (filter (\<lambda>w. 3 < len w) (split (text_src t))))"
    unfolding s by simp
  also have "\<dots> = length (remdups (filter (\<lambda>w. 3 < len w) (split (text_src t))))"
    by (rule card_set)
  finally have "length ?f \<le> 12"
    using assms(2) by simp
  then have "keyword_list it t = ?f"
    by (simp add: keyword_list_def)
  with d s show ?thesis by simp
qed

lemma match_count_card:
  "distinct kws \<Longrightarrow> match_count kws a = card {kw \<in> set kws. sublist kw (lower a)}"
proof -
  assume d: "distinct kws"
  then have "distinct (filter (\<lambda>kw. sublist kw (lower a)) kws)"
    by simp
  then have "length (filter (\<lambda>kw. sublist kw (lower a)) kws) =
      card (set (filter (\<lambda>kw. sublist kw (lower a)) kws))"
    by (rule length_distinct)
  then show ?thesis
    by (simp add: match_count_def)
qed

lemma keyword_list_order_free:
  assumes "set_order it1" and "set_order it2"
    and "length (remdups (filter (\<lambda>w. 3 < len w) (split (text_src t)))) \<le> 12"
  shows "match_count (keyword_list it1 t) a = match_count (keyword_list it2 t) a \<and>
         total_of (keyword_list it1 t) = total_of (keyword_list it2 t)"
proof -
  note k1 = keyword_list_all [OF assms(1,3)] and k2 = keyword_list_all [OF assms(2,3)]
  from k1 k2 have s: "set (keyword_list it1 t) = set (keyword_list it2 t)"
    by simp
  have "length (keyword_list it1 t) = card (set (keyword_list it1 t))"
    using k1 by (simp only: length_distinct)
  also have "\<dots> = card (set (keyword_list it2 t))"
    by (simp only: s)
  also have "\<dots> = length (keyword_list it2 t)"
    using k2 by (simp only: length_distinct)
  finally have l: "length (keyword_list it1 t) = length (keyword_list it2 t)" .
  have "match_count (keyword_list it1 t) a = match_count (keyword_list it2 t) a"
    using k1 k2 s by (simp add: match_count_card)
  with l show ?thesis
    by (simp add: total_of_def)
qed

lemma set_order_rev_remdups: "set_order (rev \<circ> remdups)"
  by (simp add: set_order_def)

text \<open>
  C3. The claim gives one result for a topic and an answer. The keywords are the first
  12 that the iteration of a set yields, and the language leaves that order open: for a
  reference text with 13 long tokens and an answer that has 12 of them, one order of
  the set leaves out the missing token and scores 10, another leaves out a token of the
  answer and scores 9.
\<close>

theorem set_order_counterexample:
  "set_order remdups \<and> set_order (rev \<circ> remdups) \<and>
   fst (evaluate_teachback remdups cc_radio (selected cc_radio ''radio'') answer_radio) =
     Inr (''Great '' @ em_dash @ '' clear and covers main points. (score: 10/10)'') \<and>
   fst (evaluate_teachback (rev \<circ> remdups) cc_radio (selected cc_radio ''radio'') answer_radio) =
     Inr (''Great '' @ em_dash @ '' clear and covers main points. (score: 9/10)'')"
proof -
  have a: "fst (evaluate_teachback remdups cc_radio (selected cc_radio ''radio'') answer_radio) =
     Inr (''Great '' @ em_dash @ '' clear and covers main points. (score: 10/10)'')"
    by code_simp
  have b: "fst (evaluate_teachback (rev \<circ> remdups) cc_radio (selected cc_radio ''radio'')
       answer_radio) =
     Inr (''Great '' @ em_dash @ '' clear and covers main points. (score: 9/10)'')"
    by code_simp
  from a b set_order_remdups set_order_rev_remdups show ?thesis by simp
qed

text \<open>
  C3, as amended. Let a topic be selected. When its reference text has at most 12
  distinct tokens longer than 3, the result of \<^verbatim>\<open>evaluate_teachback\<close> is the same for
  every order in which the set may be iterated, so it depends on the topic and the
  answer only. For every reference text and every order, the result is the feedback
  sentence followed by a score that is an integer from 1 to 10.
\<close>

theorem evaluate_teachback_deterministic:
  assumes "topic cc (state_of ctx) = Inr (Some t)"
  shows "(set_order it1 \<and> set_order it2 \<and>
          length (remdups (filter (\<lambda>w. 3 < len w) (split (text_src t)))) \<le> 12 \<longrightarrow>
            evaluate_teachback it1 cc ctx a = evaluate_teachback it2 cc ctx a) \<and>
         (\<exists>sc. 1 \<le> sc \<and> sc \<le> 10 \<and>
            evaluate_teachback it cc ctx a =
              (Inr (feedback_of sc @ '' (score: '' @ str_int sc @ ''/10)''), ctx))"
proof (intro conjI impI)
  assume h: "set_order it1 \<and> set_order it2 \<and>
    length (remdups (filter (\<lambda>w. 3 < len w) (split (text_src t)))) \<le> 12"
  then have "match_count (keyword_list it1 t) a = match_count (keyword_list it2 t) a \<and>
      total_of (keyword_list it1 t) = total_of (keyword_list it2 t)"
    by (simp add: keyword_list_order_free)
  then show "evaluate_teachback it1 cc ctx a = evaluate_teachback it2 cc ctx a"
    by (simp add: evaluate_teachback_selected [OF assms])
next
  let ?sc = "score_of (match_count (keyword_list it t) a) (total_of (keyword_list it t))"
  have "1 \<le> ?sc \<and> ?sc \<le> 10"
    by (rule score_of_range)
  with evaluate_teachback_selected [OF assms, of it a]
  show "\<exists>sc. 1 \<le> sc \<and> sc \<le> 10 \<and>
      evaluate_teachback it cc ctx a =
        (Inr (feedback_of sc @ '' (score: '' @ str_int sc @ ''/10)''), ctx)"
    by blast
qed

lemma loops_few_keywords:
  "length (remdups (filter (\<lambda>w. 3 < len w) (split (text_src (hd cc_loops))))) \<le> 12"
  by code_simp

theorem evaluate_teachback_deterministic_witness:
  "topic cc_loops (state_of (selected cc_loops ''loops'')) = Inr (Some (hd cc_loops)) \<and>
   set_order remdups \<and> set_order (rev \<circ> remdups) \<and>
   length (remdups (filter (\<lambda>w. 3 < len w) (split (text_src (hd cc_loops))))) \<le> 12 \<and>
   evaluate_teachback remdups cc_loops (selected cc_loops ''loops'') ''loops repeat'' =
     evaluate_teachback (rev \<circ> remdups) cc_loops (selected cc_loops ''loops'') ''loops repeat''"
  using evaluate_teachback_deterministic [OF topic_selected_loops,
      of remdups "rev \<circ> remdups" "''loops repeat''" remdups]
    topic_selected_loops set_order_remdups set_order_rev_remdups loops_few_keywords
  by blast

subsection \<open>Feedback bands\<close>

lemma str_int_10: "str_int 10 = ''10''"
  by code_simp

lemma match_count_all:
  "\<forall>kw\<in>set kws. sublist kw (lower a) \<Longrightarrow> match_count kws a = length kws"
  by (simp add: match_count_def)

lemma score_of_all:
  assumes "keyword_list it t \<noteq> []"
    and "\<forall>kw\<in>set (keyword_list it t). sublist kw (lower a)"
  shows "score_of (match_count (keyword_list it t) a) (total_of (keyword_list it t)) = 10"
proof -
  let ?k = "keyword_list it t"
  from assms(1) have n: "1 \<le> length ?k"
    by (cases ?k) simp_all
  have mc: "match_count ?k a = length ?k"
    using assms(2) by (rule match_count_all)
  from n have mx: "max 1 (length ?k) = length ?k"
    by (rule max_absorb2)
  from assms(1) have q: "(of_nat (length ?k) / of_nat (length ?k) :: rat) = 1"
    by simp
  have "score_of (match_count ?k a) (total_of ?k) =
      max 1 (min 10 \<lfloor>(of_nat (match_count ?k a) / of_nat (max 1 (length ?k)) :: rat) * 10\<rfloor>)"
    by (rule score_of_keywords)
  also have "\<dots> = max 1 (min 10 \<lfloor>(1 :: rat) * 10\<rfloor>)"
    by (simp only: mc mx q)
  also have "\<dots> = 10"
    by simp
  finally show ?thesis .
qed

text \<open>\<open>len\<close> counts code points: the title of \<open>cc_kanji\<close> has nine bytes and length 3,
  so it is no keyword.\<close>

lemma len_kanji:
  "len [CHR 0xE6, CHR 0x97, CHR 0xA5, CHR 0xE6, CHR 0x9C, CHR 0xAC, CHR 0xE8, CHR 0xAA, CHR 0x9E] = 3 \<and>
   len ''loops'' = 5"
  by code_simp

lemma kanji_no_keyword:
  "keyword_list remdups (hd cc_kanji) = [] \<and>
   fst (evaluate_teachback remdups cc_kanji (selected cc_kanji ''kanji'') ''ab'') =
     Inr (''Needs improvement '' @ em_dash @
          '' try a short definition and an example. (score: 1/10)'')"
  by code_simp

text \<open>
  C5. The claim gives score 10 to every answer that contains all keywords of the topic.
  A topic whose title and summary have no token longer than 3 has no keyword: every
  answer contains all of them, the count of matches is 0, and the score is 1 with the
  lowest band.
\<close>

theorem no_keywords_counterexample:
  "keyword_list remdups (hd cc_short) = [] \<and>
   list_all (\<lambda>kw. sublist kw (lower ''AI: ML is fun'')) (keyword_list remdups (hd cc_short)) \<and>
   fst (evaluate_teachback remdups cc_short (selected cc_short ''ai'') ''AI: ML is fun'') =
     Inr (''Needs improvement '' @ em_dash @
          '' try a short definition and an example. (score: 1/10)'')"
  by code_simp

text \<open>
  C5, as amended. For every selected topic with at least one keyword, an answer that
  contains all the keywords gets score 10 and the sentence of the highest band. For
  every selected topic and answer the result is the sentence of the band of the score,
  followed by the score: the first sentence from 8 on, the second from 5 to 7, the third
  below 5.
\<close>

theorem evaluate_teachback_bands:
  assumes "topic cc (state_of ctx) = Inr (Some t)"
  shows "(keyword_list it t \<noteq> [] \<and> (\<forall>kw\<in>set (keyword_list it t). sublist kw (lower a)) \<longrightarrow>
            evaluate_teachback it cc ctx a =
              (Inr (''Great '' @ em_dash @ '' clear and covers main points. (score: 10/10)''), ctx)) \<and>
         (\<exists>sc. 1 \<le> sc \<and> sc \<le> 10 \<and>
            (\<exists>fb. fst (evaluate_teachback it cc ctx a) = Inr (fb @ '' (score: '' @ str_int sc @ ''/10)'') \<and>
               suffix ('' (score: '' @ str_int sc @ ''/10)'') (fb @ '' (score: '' @ str_int sc @ ''/10)'') \<and>
               (8 \<le> sc \<longrightarrow> fb = ''Great '' @ em_dash @ '' clear and covers main points.'') \<and>
               (5 \<le> sc \<and> sc < 8 \<longrightarrow>
                  fb = ''Good '' @ em_dash @
                       '' covers some points; try adding a short example or definition.'') \<and>
               (sc < 5 \<longrightarrow>
                  fb = ''Needs improvement '' @ em_dash @
                       '' try a short definition and an example.'')))"
proof (intro conjI impI)
  assume h: "keyword_list it t \<noteq> [] \<and> (\<forall>kw\<in>set (keyword_list it t). sublist kw (lower a))"
  then have "score_of (match_count (keyword_list it t) a) (total_of (keyword_list it t)) = 10"
    by (simp add: score_of_all)
  then show "evaluate_teachback it cc ctx a =
      (Inr (''Great '' @ em_dash @ '' clear and covers main points. (score: 10/10)''), ctx)"
    by (simp add: evaluate_teachback_selected [OF assms] feedback_of_def str_int_10)
next
  let ?sc = "score_of (match_count (keyword_list it t) a) (total_of (keyword_list it t))"
  have r: "1 \<le> ?sc \<and> ?sc \<le> 10"
    by (rule score_of_range)
  have e: "fst (evaluate_teachback it cc ctx a) =
      Inr (feedback_of ?sc @ '' (score: '' @ str_int ?sc @ ''/10)'')"
    by (simp add: evaluate_teachback_selected [OF assms])
  have s: "suffix ('' (score: '' @ str_int ?sc @ ''/10)'')
      (feedback_of ?sc @ '' (score: '' @ str_int ?sc @ ''/10)'')"
    by (rule suffix_appendI) simp
  have b: "(8 \<le> ?sc \<longrightarrow> feedback_of ?sc = ''Great '' @ em_dash @ '' clear and covers main points.'') \<and>
      (5 \<le> ?sc \<and> ?sc < 8 \<longrightarrow>
         feedback_of ?sc = ''Good '' @ em_dash @
           '' covers some points; try adding a short example or definition.'') \<and>
      (?sc < 5 \<longrightarrow>
         feedback_of ?sc = ''Needs improvement '' @ em_dash @
           '' try a short definition and an example.'')"
    by (simp add: feedback_of_def)
  from r e s b
  show "\<exists>sc. 1 \<le> sc \<and> sc \<le> 10 \<and>
      (\<exists>fb. fst (evaluate_teachback it cc ctx a) = Inr (fb @ '' (score: '' @ str_int sc @ ''/10)'') \<and>
         suffix ('' (score: '' @ str_int sc @ ''/10)'') (fb @ '' (score: '' @ str_int sc @ ''/10)'') \<and>
         (8 \<le> sc \<longrightarrow> fb = ''Great '' @ em_dash @ '' clear and covers main points.'') \<and>
         (5 \<le> sc \<and> sc < 8 \<longrightarrow>
            fb = ''Good '' @ em_dash @
                 '' covers some points; try adding a short example or definition.'') \<and>
         (sc < 5 \<longrightarrow>
            fb = ''Needs improvement '' @ em_dash @
                 '' try a short definition and an example.''))"
    by blast
qed

lemma loops_keywords:
  "keyword_list remdups (hd cc_loops) = [''loops'', ''repeat'', ''blocks'']"
  by code_simp

lemma loops_answer_has_all:
  "list_all (\<lambda>kw. sublist kw (lower ''Loops REPEAT code blocks''))
     [''loops'', ''repeat'', ''blocks'']"
  by code_simp

theorem evaluate_teachback_bands_witness:
  "topic cc_loops (state_of (selected cc_loops ''loops'')) = Inr (Some (hd cc_loops)) \<and>
   keyword_list remdups (hd cc_loops) \<noteq> [] \<and>
   list_all (\<lambda>kw. sublist kw (lower ''Loops REPEAT code blocks''))
     (keyword_list remdups (hd cc_loops)) \<and>
   evaluate_teachback remdups cc_loops (selected cc_loops ''loops'') ''Loops REPEAT code blocks'' =
     (Inr (''Great '' @ em_dash @ '' clear and covers main points. (score: 10/10)''),
      selected cc_loops ''loops'')"
proof -
  have h: "keyword_list remdups (hd cc_loops) \<noteq> [] \<and>
      (\<forall>kw\<in>set (keyword_list remdups (hd cc_loops)).
         sublist kw (lower ''Loops REPEAT code blocks''))"
    using loops_answer_has_all by (simp add: loops_keywords)
  with evaluate_teachback_bands [OF topic_selected_loops, of remdups "''Loops REPEAT code blocks''"]
  have "evaluate_teachback remdups cc_loops (selected cc_loops ''loops'')
      ''Loops REPEAT code blocks'' =
      (Inr (''Great '' @ em_dash @ '' clear and covers main points. (score: 10/10)''),
       selected cc_loops ''loops'')"
    by blast
  with h topic_selected_loops show ?thesis
    by (simp add: list_all_iff)
qed

subsection \<open>Loading\<close>




end
